theory Spec2Isabelle
  imports Main "HOL-Library.Multiset" "HOL-Library.Sublist"
begin

section \<open>Data model of the main process\<close>

text \<open>
  The connection supervisor of the client is the set of module-level variables of the
  Electron main process together with the functions \<^verbatim>\<open>connectVPN\<close>,
  \<^verbatim>\<open>disconnectVPN\<close>, \<^verbatim>\<open>handleConnectionFailure\<close> and
  \<^verbatim>\<open>waitForProxy\<close>. The variables become one record that every function
  takes and returns. What the functions do to the outside (the tunnel process, the host
  proxy settings, the network monitor, the tray, the window) is appended to a trace, in
  program order, so that the order and the absence of effects can be stated.
\<close>

type_synonym server_id = string

record server =
  sid :: server_id
  sname :: string

text \<open>The shape \<^verbatim>\<open>{ servers: [], activeServer: null }\<close>.\<close>

record servers_data =
  servers :: "server list"
  activeServer :: "server_id option"

datatype event =
    StopMonitoring
  | StartMonitoring string
  | WriteConfig server_id
  | Spawn nat
  | Kill nat
  | ConfigureProxy bool
  | TestConnection
  | UpdateTray
  | Send string
  | SetActiveServer server_id

text \<open>
  Errors thrown inside \<^verbatim>\<open>connectVPN\<close>: the three explicit \<^verbatim>\<open>throw\<close>
  statements and the rejection of \<^verbatim>\<open>waitForProxy\<close>, which the caller wraps.
  \<open>StoreUnreadable\<close> stands for an exception of \<^verbatim>\<open>serverManager.loadServers\<close>,
  the first statement of \<^verbatim>\<open>updateServerCountryInfo\<close>, outside its \<^verbatim>\<open>try\<close>.
  \<open>RankingFailed\<close> stands for a rejection of \<^verbatim>\<open>networkMonitor.getRankedServers\<close>.
  The last three are what the \<^verbatim>\<open>catch\<close> of \<^verbatim>\<open>disconnectVPN\<close> can receive:
  an exception of \<^verbatim>\<open>xrayProcess.kill()\<close>, of
  \<^verbatim>\<open>networkMonitor.stopMonitoring()\<close> or of \<^verbatim>\<open>mainWindow.webContents.send\<close>.
\<close>

datatype error =
    XrayBinaryNotFound
  | ProxyTimedOut nat
  | ProxyNotEstablished error
  | VerificationFailed
  | StoreUnreadable
  | RankingFailed
  | KillFailed
  | MonitorStopFailed
  | WindowSendFailed

text \<open>
  The result objects \<^verbatim>\<open>{ success, message }\<close>, one constructor for each message
  the two operations return.
\<close>

datatype reply =
    AlreadyConnected
  | NoActiveServerSelected
  | ConnectedSuccessfully
  | FailedToConnect error
  | NotConnected
  | DisconnectedSuccessfully
  | FailedToDisconnect error

fun success :: "reply \<Rightarrow> bool" where
  "success AlreadyConnected = False"
| "success NoActiveServerSelected = False"
| "success ConnectedSuccessfully = True"
| "success (FailedToConnect e) = False"
| "success NotConnected = True"
| "success DisconnectedSuccessfully = True"
| "success (FailedToDisconnect e) = False"

text \<open>
  Which of the calls inside the \<^verbatim>\<open>try\<close> block of \<^verbatim>\<open>disconnectVPN\<close> throw
  when they are made. \<^verbatim>\<open>configureProxy\<close> and \<^verbatim>\<open>updateTray\<close> catch their own
  exceptions and are not among them.
\<close>

record faults =
  killThrows :: bool
  stopMonitoringThrows :: bool
  sendThrows :: bool

definition noFaults :: faults where
  "noFaults = \<lparr>killThrows = False, stopMonitoringThrows = False, sendThrows = False\<rparr>"

text \<open>
  The module-level variables (\<open>mainWindow\<close> as the fact that the window exists,
  \<open>xrayProcess\<close> as the handle of the child process), then the world the module talks
  to: \<open>store\<close> is the server list that \<^verbatim>\<open>serverManager\<close> persists, \<open>clock\<close> is
  \<^verbatim>\<open>Date.now()\<close> in milliseconds, \<open>spawned\<close> counts the child processes created so
  far and numbers the next handle, \<open>faults\<close> says which calls of a teardown throw.
\<close>

record main_state =
  mainWindow :: bool
  xrayProcess :: "nat option"
  isConnected :: bool
  connectionStartTime :: "nat option"
  serversData :: servers_data
  autoReconnectEnabled :: bool
  isAutoFailoverInProgress :: bool
  lastConnectedIP :: "string option"
  sessionFailedServers :: "server_id list"
  store :: servers_data
  clock :: nat
  spawned :: nat
  faults :: faults
  trace :: "event list"

definition emit :: "event \<Rightarrow> main_state \<Rightarrow> main_state" where
  "emit e s = s\<lparr>trace := trace s @ [e]\<rparr>"

text \<open>JavaScript truthiness of a value that is a string or \<^verbatim>\<open>null\<close>.\<close>

fun truthy :: "string option \<Rightarrow> bool" where
  "truthy None = False"
| "truthy (Some v) = (v \<noteq> [])"

text \<open>
  \<^verbatim>\<open>getActiveServer\<close> reads the cached \<^verbatim>\<open>serversData\<close>, not the store.
\<close>

definition getActiveServer :: "main_state \<Rightarrow> server option" where
  "getActiveServer s =
     (case activeServer (serversData s) of
        None \<Rightarrow> None
      | Some a \<Rightarrow>
          if a = [] then None
          else find (\<lambda>sv. sid sv = a) (servers (serversData s)))"

text \<open>
  \<^verbatim>\<open>configureProxy\<close> catches every exception itself and both callers discard the
  object it returns, so for them it is the effect alone.
\<close>

definition configureProxy :: "bool \<Rightarrow> main_state \<Rightarrow> main_state" where
  "configureProxy enable s = emit (ConfigureProxy enable) s"

section \<open>Disconnect\<close>

text \<open>
  \<^verbatim>\<open>disconnectVPN(silent)\<close>. The parameter is not read by the body. The statements
  of the \<^verbatim>\<open>try\<close> block after the guard are kept in the order of the source: the
  kill, the proxy, the two variables, the monitor, the tray, the two events for the
  window. \<open>Inl\<close> is an exception together with the state at the throw: a call that
  throws has had no effect of its own, and no statement after it has run.
\<close>

definition disconnectBody :: "main_state \<Rightarrow> (error \<times> main_state) + main_state" where
  "disconnectBody s =
     (if xrayProcess s \<noteq> None \<and> killThrows (faults s) then Inl (KillFailed, s)
      else
        let s1 = (case xrayProcess s of
                    None \<Rightarrow> s
                  | Some p \<Rightarrow> (emit (Kill p) s)\<lparr>xrayProcess := None\<rparr>);
            s2 = configureProxy False s1;
            s3 = s2\<lparr>isConnected := False, connectionStartTime := None\<rparr>
        in
          if stopMonitoringThrows (faults s3) then Inl (MonitorStopFailed, s3)
          else
            let s4 = emit StopMonitoring s3;
                s5 = emit UpdateTray s4
            in
              if mainWindow s5
              then
                if sendThrows (faults s5) then Inl (WindowSendFailed, s5)
                else Inr (emit (Send ''vpn:disconnected'')
                            (emit (Send ''vpn:status-change'') s5))
              else Inr s5)"

text \<open>
  The guard, the block, and the \<^verbatim>\<open>catch\<close> that turns an exception into the
  result \<^verbatim>\<open>{ success: false, message: 'Failed to disconnect: ...' }\<close>.
\<close>

definition disconnectVPN :: "bool \<Rightarrow> main_state \<Rightarrow> reply \<times> main_state" where
  "disconnectVPN silent s =
     (if \<not> isConnected s then (NotConnected, s)
      else
        case disconnectBody s of
          Inr s' \<Rightarrow> (DisconnectedSuccessfully, s')
        | Inl (e, s') \<Rightarrow> (FailedToDisconnect e, s'))"

section \<open>Readiness wait\<close>

text \<open>
  \<^verbatim>\<open>waitForProxy(port, host, timeout = 10000)\<close>. The network is a parameter: the
  \<open>k\<close>-th connection to \<open>host:port\<close> is accepted or refused, after some milliseconds
  (for a refusal, up to the moment the retry timer is armed). \<open>tryConnect\<close> is the inner
  closure, with the clock and the number of connections opened so far as arguments. The
  report says whether the promise resolved, when it settled and how many connections
  were opened.
\<close>

type_synonym network = "nat \<Rightarrow> string \<Rightarrow> nat \<Rightarrow> bool \<times> nat"

record wait_report =
  resolved :: bool
  settled_at :: nat
  tries :: nat

function tryConnect ::
  "network \<Rightarrow> nat \<Rightarrow> string \<Rightarrow> nat \<Rightarrow> nat \<Rightarrow> nat \<Rightarrow> nat \<Rightarrow> wait_report" where
  "tryConnect net port host timeout startTime now k =
     (if now - startTime > timeout
      then \<lparr>resolved = False, settled_at = now, tries = k\<rparr>
      else if fst (net port host k)
      then \<lparr>resolved = True, settled_at = now + snd (net port host k), tries = Suc k\<rparr>
      else tryConnect net port host timeout startTime
             (now + snd (net port host k) + 200) (Suc k))"
  by pat_completeness auto
termination
  by (relation "measure (\<lambda>(net, port, host, timeout, startTime, now, k).
                           startTime + timeout + 1 - now)") auto

declare tryConnect.simps [simp del]

text \<open>
  The moment the \<open>k\<close>-th connection is opened when every connection before it was
  refused: each refusal is followed by the 200 ms of the retry timer.
\<close>

primrec attemptStart :: "network \<Rightarrow> nat \<Rightarrow> string \<Rightarrow> nat \<Rightarrow> nat \<Rightarrow> nat" where
  "attemptStart net port host startTime 0 = startTime"
| "attemptStart net port host startTime (Suc k) =
     attemptStart net port host startTime k + snd (net port host k) + 200"

definition waitForProxy :: "network \<Rightarrow> nat \<Rightarrow> string \<Rightarrow> nat \<Rightarrow> nat \<Rightarrow> wait_report" where
  "waitForProxy net port host timeout startTime =
     tryConnect net port host timeout startTime startTime 0"

section \<open>Connect\<close>

text \<open>
  What the outside answers during one call of \<^verbatim>\<open>connectVPN\<close>: whether
  \<^verbatim>\<open>findXrayBinary\<close> finds the binary, how the local port behaves, what
  \<^verbatim>\<open>testConnection\<close> returns (\<^verbatim>\<open>null\<close> or the detected address), and whether
  the server list can be loaded for the country update.
\<close>

record attempt =
  binary :: "string option"
  net :: network
  detected :: "string option"
  loadable :: bool

text \<open>
  The body of the \<^verbatim>\<open>try\<close> block: \<open>Inl\<close> is a thrown error together with the state
  at the throw, \<open>Inr\<close> is the state at \<^verbatim>\<open>return { success: true, ... }\<close>. The
  last event is the address detection that \<^verbatim>\<open>getStatus\<close> runs for the result object.
\<close>

definition connectBody ::
  "bool \<Rightarrow> attempt \<Rightarrow> server \<Rightarrow> main_state \<Rightarrow> (error \<times> main_state) + main_state" where
  "connectBody isEmergencyReconnect a srv s =
     (let s1 = emit (WriteConfig (sid srv)) s in
      case binary a of
        None \<Rightarrow> Inl (XrayBinaryNotFound, s1)
      | Some b \<Rightarrow>
          let p = spawned s1;
              s2 = (emit (Spawn p) s1)\<lparr>xrayProcess := Some p, spawned := Suc p\<rparr>;
              w = waitForProxy (net a) 10808 ''127.0.0.1'' 10000 (clock s2);
              s3 = s2\<lparr>clock := settled_at w\<rparr>
          in
            if \<not> resolved w then Inl (ProxyNotEstablished (ProxyTimedOut 10000), s3)
            else
              let s4 = configureProxy True s3;
                  s5 = emit TestConnection s4
              in
                if \<not> truthy (detected a) then Inl (VerificationFailed, s5)
                else
                  let s6 = s5\<lparr>isConnected := True,
                             connectionStartTime := Some (clock s5),
                             lastConnectedIP := detected a\<rparr>;
                      s7 = emit UpdateTray s6
                  in
                    if \<not> loadable a then Inl (StoreUnreadable, s7)
                    else
                      let s8 = (if mainWindow s7 then emit (Send ''vpn:connected'') s7 else s7);
                          s9 = (if \<not> isEmergencyReconnect
                                then s8\<lparr>sessionFailedServers := []\<rparr> else s8);
                          s10 = (if autoReconnectEnabled s9
                                 then emit (StartMonitoring (the (detected a))) s9 else s9);
                          s11 = emit TestConnection s10
                      in Inr s11)"

text \<open>
  \<^verbatim>\<open>connectVPN(isEmergencyReconnect = false)\<close>: the two guards, the stop of a
  lingering monitor, the \<^verbatim>\<open>try\<close> block, and the \<^verbatim>\<open>catch\<close> that calls
  \<^verbatim>\<open>disconnectVPN(true)\<close> before it returns the failure.
\<close>

definition connectVPN :: "bool \<Rightarrow> attempt \<Rightarrow> main_state \<Rightarrow> reply \<times> main_state" where
  "connectVPN isEmergencyReconnect a s =
     (if isConnected s then (AlreadyConnected, s)
      else
        case getActiveServer s of
          None \<Rightarrow> (NoActiveServerSelected, s)
        | Some srv \<Rightarrow>
            (case connectBody isEmergencyReconnect a srv (emit StopMonitoring s) of
               Inr s' \<Rightarrow> (ConnectedSuccessfully, s')
             | Inl (e, s') \<Rightarrow> (FailedToConnect e, snd (disconnectVPN True s'))))"

text \<open>
  The window reaches \<^verbatim>\<open>connectVPN\<close> through
  \<^verbatim>\<open>ipcMain.handle('vpn:connect', connectVPN)\<close>. A handler is called with the
  invoke event as its first argument, so on this path \<^verbatim>\<open>isEmergencyReconnect\<close>
  is an object, which is truthy. The tray menu and \<^verbatim>\<open>setActiveServer\<close> call
  \<^verbatim>\<open>connectVPN()\<close> with no argument, the default \<^verbatim>\<open>false\<close>.
\<close>

definition ipcConnect :: "attempt \<Rightarrow> main_state \<Rightarrow> reply \<times> main_state" where
  "ipcConnect a s = connectVPN True a s"

text \<open>
  The listener of the child's \<^verbatim>\<open>close\<close> event, registered right after the spawn.
\<close>

definition onClose :: "main_state \<Rightarrow> main_state" where
  "onClose s = (if isConnected s then snd (disconnectVPN True s) else s)"

section \<open>Failover\<close>

text \<open>
  The modules \<^verbatim>\<open>serverManager\<close> and \<^verbatim>\<open>networkMonitor\<close> are required by the
  main process but are not among the sources. The calls the failover makes into them are
  \<^verbatim>\<open>getActiveServerId\<close> and \<^verbatim>\<open>getServers\<close> (reads of the store),
  \<^verbatim>\<open>setActiveServer\<close> and \<^verbatim>\<open>getRankedServers\<close>.
\<close>

text \<open>
  Modelled from the spec: \<^verbatim>\<open>serverManager.setActiveServer\<close> is missing; the spec
  gives the store operation as \<^verbatim>\<open>SetActive(id) -> ok|NotFound\<close>, so the active
  pointer of the store moves only to an identifier the store holds. The cached
  \<^verbatim>\<open>serversData\<close> of the main process is untouched, as in the source, where only
  the main process's own \<^verbatim>\<open>setActiveServer\<close> reloads it.
\<close>

definition storeSetActive :: "server_id \<Rightarrow> main_state \<Rightarrow> main_state" where
  "storeSetActive i s =
     (if find (\<lambda>sv. sid sv = i) (servers (store s)) = None
      then emit (SetActiveServer i) s
      else emit (SetActiveServer i) (s\<lparr>store := (store s)\<lparr>activeServer := Some i\<rparr>\<rparr>))"

text \<open>
  A candidate with its latency sample, \<^verbatim>\<open>{id, ping}\<close> in the spec's example;
  \<open>None\<close> is \<^verbatim>\<open>null\<close>, an unreachable server.
\<close>

type_synonym sample = "server \<times> nat option"

text \<open>
  Modelled from the spec: \<^verbatim>\<open>networkMonitor.getRankedServers\<close> is missing. The spec
  says: probe all candidates for latency (absence = unreachable); rank ascending by
  latency, unreachable candidates excluded entirely. \<open>rankSamples\<close> drops the samples
  without a latency and sorts the rest by latency (ties keep the order of the input);
  \<open>probeAll\<close> takes one sample for each candidate.
\<close>

definition rankSamples :: "sample list \<Rightarrow> sample list" where
  "rankSamples cs = sort_key (\<lambda>c. the (snd c)) (filter (\<lambda>c. snd c \<noteq> None) cs)"

definition probeAll :: "(server_id \<Rightarrow> nat option) \<Rightarrow> server list \<Rightarrow> sample list" where
  "probeAll png cands = map (\<lambda>sv. (sv, png (sid sv))) cands"

text \<open>
  What the outside answers during one failover episode: the latency of each server, whether
  the ranking call resolves at all, and the answers to the \<open>i\<close>-th connection attempt.
\<close>

record world =
  ping :: "server_id \<Rightarrow> nat option"
  rankingResolves :: bool
  attempts :: "nat \<Rightarrow> attempt"

definition getRankedServers :: "world \<Rightarrow> server list \<Rightarrow> error + server list" where
  "getRankedServers w cands =
     (if rankingResolves w then Inr (map fst (rankSamples (probeAll (ping w) cands)))
      else Inl RankingFailed)"

text \<open>
  The \<^verbatim>\<open>for (const nextServer of rankedServers)\<close> loop; the result says whether
  \<^verbatim>\<open>connected\<close> became true.
\<close>

fun failoverLoop :: "world \<Rightarrow> nat \<Rightarrow> server list \<Rightarrow> main_state \<Rightarrow> bool \<times> main_state" where
  "failoverLoop w i [] s = (False, s)"
| "failoverLoop w i (nextServer # rest) s =
     (let s1 = storeSetActive (sid nextServer) s;
          (result, s2) = connectVPN True (attempts w i) s1
      in
        if success result
        then (True, (if mainWindow s2 then emit (Send ''vpn:auto-failover'') s2 else s2))
        else
          let s3 = s2\<lparr>sessionFailedServers := sessionFailedServers s2 @ [sid nextServer]\<rparr>;
              s4 = snd (disconnectVPN True s3)
          in failoverLoop w (Suc i) rest s4)"

text \<open>
  The first two statements of the \<^verbatim>\<open>try\<close> block: the active server of the store
  is pushed on the session list, then the connection is torn down.
\<close>

definition markFailed :: "main_state \<Rightarrow> main_state" where
  "markFailed s =
     (if truthy (activeServer (store s))
      then s\<lparr>sessionFailedServers := sessionFailedServers s @ [the (activeServer (store s))]\<rparr>
      else s)"

definition availableServers :: "main_state \<Rightarrow> server list" where
  "availableServers s =
     filter (\<lambda>sv. \<not> List.member (sessionFailedServers s) (sid sv)) (servers (store s))"

text \<open>
  The \<^verbatim>\<open>try\<close> block of \<^verbatim>\<open>handleConnectionFailure\<close>: the thrown error, if any,
  and the state the block leaves.
\<close>

definition failoverBody :: "world \<Rightarrow> main_state \<Rightarrow> error option \<times> main_state" where
  "failoverBody w s =
     (let s1 = markFailed s;
          s2 = snd (disconnectVPN True s1);
          cands = availableServers s2
      in
        if cands = [] then (None, s2\<lparr>sessionFailedServers := []\<rparr>)
        else
          case getRankedServers w cands of
            Inl e \<Rightarrow> (Some e, s2)
          | Inr rankedServers \<Rightarrow>
              if rankedServers = [] then (None, s2)
              else (None, snd (failoverLoop w 0 rankedServers s2)))"

text \<open>
  \<^verbatim>\<open>handleConnectionFailure\<close>: the entry guard, the flag, the block, the
  \<^verbatim>\<open>catch\<close> that only logs, and the \<^verbatim>\<open>finally\<close>.
\<close>

definition entryGuard :: "main_state \<Rightarrow> bool" where
  "entryGuard s = (autoReconnectEnabled s \<and> \<not> isAutoFailoverInProgress s)"

definition handleConnectionFailure :: "world \<Rightarrow> main_state \<Rightarrow> main_state" where
  "handleConnectionFailure w s =
     (if \<not> autoReconnectEnabled s \<or> isAutoFailoverInProgress s then s
      else
        let s0 = s\<lparr>isAutoFailoverInProgress := True\<rparr>;
            (thrown, s1) = failoverBody w s0
        in s1\<lparr>isAutoFailoverInProgress := False\<rparr>)"

section \<open>The window's side\<close>

text \<open>
  The renderer keeps its own copy of the connection state, with the flags for the states
  in between (\<^verbatim>\<open>isConnecting\<close>, \<^verbatim>\<open>isDisconnecting\<close>,
  \<^verbatim>\<open>isSwitching\<close>), and reaches the main process through \<^verbatim>\<open>window.api\<close>.
  The calls it makes are appended to \<open>ui_calls\<close>.
\<close>

datatype ui_call =
    ApiConnect
  | ApiDisconnect
  | ShowNotification string
  | UpdateUI
  | RenderServersList

record ui_state =
  ui_servers :: "server list"
  ui_activeServerId :: "server_id option"
  ui_isConnected :: bool
  ui_isConnecting :: bool
  ui_isDisconnecting :: bool
  ui_isSwitching :: bool
  ui_needsAutoReconnect :: bool
  ui_calls :: "ui_call list"

text \<open>
  What the page answers: for a server id, whether its list item has a ping element and
  whether that element carries the class \<^verbatim>\<open>poor\<close>; whether the Smart Connect
  toggle is checked; whether the call into the main process resolves.
\<close>

record page =
  pingPoor :: "server_id \<Rightarrow> bool option"
  smartConnectEnabled :: bool
  apiResolves :: bool

definition call :: "ui_call \<Rightarrow> ui_state \<Rightarrow> ui_state" where
  "call c u = u\<lparr>ui_calls := ui_calls u @ [c]\<rparr>"

definition connect :: "page \<Rightarrow> ui_state \<Rightarrow> ui_state" where
  "connect pg u =
     (if ui_isConnected u \<or> ui_isConnecting u \<or> \<not> truthy (ui_activeServerId u) then u
      else if pingPoor pg (the (ui_activeServerId u)) = Some True
      then
        let u1 = call (ShowNotification ''Cannot connect to unavailable server'') u
        in
          if smartConnectEnabled pg \<and> ui_servers u1 \<noteq> []
          then call RenderServersList (u1\<lparr>ui_needsAutoReconnect := True\<rparr>)
          else u1
      else
        let u1 = call UpdateUI (u\<lparr>ui_isConnecting := True\<rparr>);
            u2 = call ApiConnect u1
        in
          if apiResolves pg then u2
          else call UpdateUI
                 (call (ShowNotification ''Connection failed'') (u2\<lparr>ui_isConnecting := False\<rparr>)))"

definition disconnect :: "page \<Rightarrow> ui_state \<Rightarrow> ui_state" where
  "disconnect pg u =
     (if \<not> ui_isConnected u \<or> ui_isDisconnecting u then u
      else
        let u1 = (if \<not> ui_isSwitching u
                  then call UpdateUI (u\<lparr>ui_isDisconnecting := True\<rparr>) else u);
            u2 = call ApiDisconnect u1
        in
          if apiResolves pg then u2
          else call UpdateUI
                 ((call (ShowNotification ''Disconnect failed'') u2)\<lparr>ui_isDisconnecting := False\<rparr>))"

section \<open>Sample data\<close>

text \<open>
  Three servers, a main process at rest and one that is connected (in both no call of a
  teardown throws), and the answers of the
  outside for a connection that goes through, for one whose address cannot be detected and
  for one whose port never opens.
\<close>

definition srvA :: server where
  "srvA = \<lparr>sid = ''A'', sname = ''alpha''\<rparr>"

definition srvB :: server where
  "srvB = \<lparr>sid = ''B'', sname = ''beta''\<rparr>"

definition srvC :: server where
  "srvC = \<lparr>sid = ''C'', sname = ''gamma''\<rparr>"

definition listABC :: servers_data where
  "listABC = \<lparr>servers = [srvA, srvB, srvC], activeServer = Some ''A''\<rparr>"

definition idle :: main_state where
  "idle = \<lparr>mainWindow = True, xrayProcess = None, isConnected = False,
            connectionStartTime = None, serversData = listABC,
            autoReconnectEnabled = True, isAutoFailoverInProgress = False,
            lastConnectedIP = None, sessionFailedServers = [],
            store = listABC, clock = 0, spawned = 0, faults = noFaults, trace = []\<rparr>"

definition online :: main_state where
  "online = idle\<lparr>xrayProcess := Some 0, isConnected := True, connectionStartTime := Some 5,
                  lastConnectedIP := Some ''203.0.113.7'', spawned := 1\<rparr>"

definition accepting :: network where
  "accepting = (\<lambda>port host k. (True, 5))"

definition refusing :: network where
  "refusing = (\<lambda>port host k. (False, 0))"

text \<open>
  A port that accepts, but only 12 seconds after the connection was opened, and a port
  that refuses twice, 30 ms after each opening, and accepts the third connection.
\<close>

definition sluggish :: network where
  "sluggish = (\<lambda>port host k. (True, 12000))"

definition thirdTime :: network where
  "thirdTime = (\<lambda>port host k. (2 \<le> k, 30))"

definition healthy :: attempt where
  "healthy = \<lparr>binary = Some ''/usr/local/bin/xray'', net = accepting,
               detected = Some ''203.0.113.7'', loadable = True\<rparr>"

definition unverified :: attempt where
  "unverified = healthy\<lparr>detected := None\<rparr>"

definition unready :: attempt where
  "unready = healthy\<lparr>net := refusing\<rparr>"

text \<open>The position of the first occurrence of an event, and the order it gives.\<close>

definition firstAt :: "event \<Rightarrow> event list \<Rightarrow> nat" where
  "firstAt e tr = length (takeWhile (\<lambda>x. x \<noteq> e) tr)"

definition precedes :: "event \<Rightarrow> event \<Rightarrow> event list \<Rightarrow> bool" where
  "precedes e1 e2 tr = (firstAt e1 tr < firstAt e2 tr)"

text \<open>
  The main process in the middle of a connect: the state in which \<^verbatim>\<open>connectVPN\<close>
  awaits \<^verbatim>\<open>waitForProxy\<close>, with process 0 spawned and \<open>isConnected\<close> still false.
\<close>

definition midConnect :: main_state where
  "midConnect = idle\<lparr>xrayProcess := Some 0, spawned := 1,
                      trace := [StopMonitoring, WriteConfig ''A'', Spawn 0]\<rparr>"

text \<open>A world in which no server answers the latency probe, and one in which B and C do.\<close>

definition deaf :: world where
  "deaf = \<lparr>ping = (\<lambda>i. None), rankingResolves = True, attempts = (\<lambda>i. healthy)\<rparr>"

definition reachable :: world where
  "reachable = \<lparr>ping = (\<lambda>i. if i = ''B'' then Some 80 else if i = ''C'' then Some 20 else None),
                 rankingResolves = True, attempts = (\<lambda>i. healthy)\<rparr>"

text \<open>The window at rest with server A selected, and a page whose list shows A as available.\<close>

definition atRest :: ui_state where
  "atRest = \<lparr>ui_servers = [srvA, srvB, srvC], ui_activeServerId = Some ''A'',
              ui_isConnected = False, ui_isConnecting = False, ui_isDisconnecting = False,
              ui_isSwitching = False, ui_needsAutoReconnect = False, ui_calls = []\<rparr>"

definition page0 :: page where
  "page0 = \<lparr>pingPoor = (\<lambda>i. Some False), smartConnectEnabled = True, apiResolves = True\<rparr>"

section \<open>Evaluation rules\<close>

lemmas sample_defs = idle_def online_def listABC_def srvA_def srvB_def srvC_def
  healthy_def unverified_def unready_def accepting_def refusing_def midConnect_def
  deaf_def reachable_def atRest_def page0_def sluggish_def thirdTime_def noFaults_def

lemmas step_defs = connectVPN_def connectBody_def disconnectVPN_def disconnectBody_def
  getActiveServer_def emit_def configureProxy_def waitForProxy_def Let_def

lemmas failover_defs = handleConnectionFailure_def failoverBody_def markFailed_def
  availableServers_def getRankedServers_def rankSamples_def probeAll_def storeSetActive_def
  entryGuard_def

section \<open>What a disconnect changes\<close>

lemma disconnectBody_done:
  assumes "disconnectBody s = Inr s'"
  shows "trace s' =
           trace s @ (case xrayProcess s of None \<Rightarrow> [] | Some p \<Rightarrow> [Kill p])
                   @ [ConfigureProxy False, StopMonitoring, UpdateTray]
                   @ (if mainWindow s
                      then [Send ''vpn:status-change'', Send ''vpn:disconnected''] else [])"
    and "\<not> isConnected s'" and "xrayProcess s' = None" and "connectionStartTime s' = None"
  using assms
  by (auto simp: disconnectBody_def configureProxy_def emit_def Let_def
      split: if_splits option.splits)

lemma disconnectBody_thrown:
  assumes "disconnectBody s = Inl (e, s')"
  shows "prefix (trace s')
           (trace s @ (case xrayProcess s of None \<Rightarrow> [] | Some p \<Rightarrow> [Kill p])
                    @ [ConfigureProxy False, StopMonitoring, UpdateTray]
                    @ (if mainWindow s
                       then [Send ''vpn:status-change'', Send ''vpn:disconnected''] else []))"
    and "e = KillFailed \<or> \<not> isConnected s'"
    and "e = KillFailed \<longrightarrow> killThrows (faults s) \<and> s' = s"
  using assms
  by (auto simp: disconnectBody_def configureProxy_def emit_def Let_def
      split: if_splits option.splits)

lemma disconnectBody_noFaults: "faults s = noFaults \<Longrightarrow> \<exists>s'. disconnectBody s = Inr s'"
  by (simp add: disconnectBody_def noFaults_def configureProxy_def emit_def Let_def
      split: option.split)

lemma disconnectVPN_keeps:
  "autoReconnectEnabled (snd (disconnectVPN b s)) = autoReconnectEnabled s"
  "isAutoFailoverInProgress (snd (disconnectVPN b s)) = isAutoFailoverInProgress s"
  "sessionFailedServers (snd (disconnectVPN b s)) = sessionFailedServers s"
  "store (snd (disconnectVPN b s)) = store s"
  "spawned (snd (disconnectVPN b s)) = spawned s"
  "faults (snd (disconnectVPN b s)) = faults s"
  "lastConnectedIP (snd (disconnectVPN b s)) = lastConnectedIP s"
  by (simp_all add: disconnectVPN_def disconnectBody_def configureProxy_def emit_def Let_def
      split: option.split)

lemma disconnectVPN_disconnects:
  "\<not> killThrows (faults s) \<Longrightarrow> \<not> isConnected (snd (disconnectVPN b s))"
  by (simp add: disconnectVPN_def disconnectBody_def configureProxy_def emit_def Let_def
      split: option.split)

text \<open>
  The two outcomes in closed form, for the evaluation of longer runs: a disconnect in
  which nothing throws, and a disconnect of a supervisor that is not connected.
\<close>

lemma disconnectVPN_clean:
  "isConnected s \<Longrightarrow> faults s = noFaults \<Longrightarrow>
   disconnectVPN b s =
     (DisconnectedSuccessfully,
      s\<lparr>xrayProcess := None, isConnected := False, connectionStartTime := None,
        trace := trace s @ (case xrayProcess s of None \<Rightarrow> [] | Some p \<Rightarrow> [Kill p])
                   @ [ConfigureProxy False, StopMonitoring, UpdateTray]
                   @ (if mainWindow s
                      then [Send ''vpn:status-change'', Send ''vpn:disconnected''] else [])\<rparr>)"
  by (simp add: disconnectVPN_def disconnectBody_def noFaults_def configureProxy_def emit_def
      Let_def split: option.split)

lemma disconnectVPN_idle: "\<not> isConnected s \<Longrightarrow> disconnectVPN b s = (NotConnected, s)"
  by (simp add: disconnectVPN_def)

lemmas run_defs = connectVPN_def connectBody_def getActiveServer_def emit_def
  configureProxy_def waitForProxy_def Let_def disconnectVPN_clean disconnectVPN_idle

section \<open>Disconnect twice\<close>




section \<open>A failed connect\<close>

text \<open>
  Between the spawn and the assignment \<^verbatim>\<open>isConnected = true\<close> the flag is false, so
  the \<^verbatim>\<open>disconnectVPN(true)\<close> of the \<^verbatim>\<open>catch\<close> block meets its own guard
  and returns without touching anything: the events of a connect that fails at the
  readiness wait or at the verification are the ones up to the failure and nothing more,
  and the handle of the new process stays in \<open>xrayProcess\<close>.
\<close>

lemma connectVPN_failure_trace:
  assumes "\<not> isConnected s" and "getActiveServer s = Some srv" and "binary a = Some b"
    and "w = waitForProxy (net a) 10808 ''127.0.0.1'' 10000 (clock s)"
    and "\<not> resolved w \<or> \<not> truthy (detected a)"
  shows "\<not> success (fst (connectVPN e a s))
    \<and> xrayProcess (snd (connectVPN e a s)) = Some (spawned s)
    \<and> trace (snd (connectVPN e a s)) =
        trace s @ [StopMonitoring, WriteConfig (sid srv), Spawn (spawned s)]
                @ (if resolved w then [ConfigureProxy True, TestConnection] else [])"
  using assms by (auto simp: step_defs)

text \<open>
  Claim C1. A connect in which a step after the spawn fails is rolled back: the spawned
  process is killed and the system proxy is disabled. At the inputs below the code does
  neither. With the address check failing, \<^verbatim>\<open>connectVPN\<close> returns the failure with
  process 0 still held in \<open>xrayProcess\<close> and the proxy enabled and never disabled; with
  the port never opening, it returns the failure with process 0 still held. No
  \<open>Kill\<close> and no \<open>ConfigureProxy False\<close> is in either trace.
\<close>

theorem connectVPN_failure_keeps_tunnel:
  "connectVPN False unverified idle =
     (FailedToConnect VerificationFailed,
      idle\<lparr>xrayProcess := Some 0, clock := 5, spawned := 1,
           trace := [StopMonitoring, WriteConfig ''A'', Spawn 0, ConfigureProxy True,
                     TestConnection]\<rparr>)
   \<and> connectVPN False unready idle =
     (FailedToConnect (ProxyNotEstablished (ProxyTimedOut 10000)),
      idle\<lparr>xrayProcess := Some 0, clock := 10200, spawned := 1,
           trace := [StopMonitoring, WriteConfig ''A'', Spawn 0]\<rparr>)"
  by (simp add: step_defs sample_defs tryConnect.simps)

text \<open>
  The rollback does happen for a failure after \<^verbatim>\<open>isConnected = true\<close>: when the
  server list cannot be loaded for the country update, the process is killed and the
  proxy disabled.
\<close>

lemma connectVPN_late_failure_rolls_back:
  "connectVPN False (healthy\<lparr>loadable := False\<rparr>) idle =
     (FailedToConnect StoreUnreadable,
      idle\<lparr>clock := 5, spawned := 1,
           trace := [StopMonitoring, WriteConfig ''A'', Spawn 0, ConfigureProxy True,
                     TestConnection, UpdateTray, Kill 0, ConfigureProxy False,
                     StopMonitoring, UpdateTray, Send ''vpn:status-change'',
                     Send ''vpn:disconnected''],
           lastConnectedIP := Some ''203.0.113.7''\<rparr>)"
  by (simp add: step_defs sample_defs tryConnect.simps)

section \<open>The session list after a connect\<close>

lemma connectBody_session:
  "connectBody e a srv s = Inr s' \<Longrightarrow>
   sessionFailedServers s' = (if e then sessionFailedServers s else [])"
  by (auto simp: connectBody_def emit_def configureProxy_def Let_def
      split: option.splits if_splits)

lemma connectVPN_success:
  "success (fst (connectVPN e a s)) \<Longrightarrow>
   \<exists>srv s'. \<not> isConnected s \<and> getActiveServer s = Some srv
     \<and> connectBody e a srv (emit StopMonitoring s) = Inr s'
     \<and> connectVPN e a s = (ConnectedSuccessfully, s')"
  by (auto simp: connectVPN_def split: if_splits option.splits sum.splits)

text \<open>
  A connect requested by the window is not a manual one in this sense: it runs with a
  truthy \<^verbatim>\<open>isEmergencyReconnect\<close> and leaves the session list as it was.
\<close>

lemma ipcConnect_keeps_session:
  assumes "success (fst (ipcConnect a s))"
  shows "sessionFailedServers (snd (ipcConnect a s)) = sessionFailedServers s"
proof -
  from assms have ok: "success (fst (connectVPN True a s))"
    by (simp add: ipcConnect_def)
  from connectVPN_success [OF ok] obtain srv s' where
    body: "connectBody True a srv (emit StopMonitoring s) = Inr s'"
    and res: "connectVPN True a s = (ConnectedSuccessfully, s')"
    by blast
  from connectBody_session [OF body] have "sessionFailedServers s' = sessionFailedServers s"
    by (simp add: emit_def)
  with res show ?thesis by (simp add: ipcConnect_def)
qed

text \<open>
  Claim C4. When \<^verbatim>\<open>connectVPN\<close> succeeds, the session list of failed servers is
  empty if the call was a manual one (\<^verbatim>\<open>isEmergencyReconnect\<close> false) and is the
  list the call started with if it was made by the failover
  (\<^verbatim>\<open>isEmergencyReconnect\<close> true).
\<close>

theorem connectVPN_resets_session:
  assumes "success (fst (connectVPN e a s))"
  shows "sessionFailedServers (snd (connectVPN e a s)) =
           (if e then sessionFailedServers s else [])"
proof -
  from connectVPN_success [OF assms] obtain srv s' where
    body: "connectBody e a srv (emit StopMonitoring s) = Inr s'"
    and res: "connectVPN e a s = (ConnectedSuccessfully, s')"
    by blast
  from connectBody_session [OF body] have
    "sessionFailedServers s' = (if e then sessionFailedServers s else [])"
    by (simp add: emit_def)
  with res show ?thesis by simp
qed

theorem connectVPN_resets_session_witness:
  "success (fst (connectVPN False healthy (idle\<lparr>sessionFailedServers := [''B'']\<rparr>)))
   \<and> sessionFailedServers
       (snd (connectVPN False healthy (idle\<lparr>sessionFailedServers := [''B'']\<rparr>))) = []
   \<and> success (fst (connectVPN True healthy (idle\<lparr>sessionFailedServers := [''B'']\<rparr>)))
   \<and> sessionFailedServers
       (snd (connectVPN True healthy (idle\<lparr>sessionFailedServers := [''B'']\<rparr>))) = [''B'']"
proof -
  have m: "success (fst (connectVPN False healthy (idle\<lparr>sessionFailedServers := [''B'']\<rparr>)))"
    by (simp add: step_defs sample_defs tryConnect.simps)
  have f: "success (fst (connectVPN True healthy (idle\<lparr>sessionFailedServers := [''B'']\<rparr>)))"
    by (simp add: step_defs sample_defs tryConnect.simps)
  from connectVPN_resets_session [OF m] connectVPN_resets_session [OF f] m f
  show ?thesis by (simp add: idle_def)
qed

section \<open>The order of a disconnect\<close>

text \<open>
  Claim C7, as the claim states it: the monitor is stopped first, before the process is
  killed and the proxy disabled. In the code the monitor is stopped after both: the
  disconnect of a connected supervisor kills process 0, disables the proxy and only then
  stops the monitor. The last detected address, a part of the record of the active
  connection, is still there afterwards.
\<close>

theorem disconnectVPN_monitor_not_first:
  "trace (snd (disconnectVPN False online)) =
     [Kill 0, ConfigureProxy False, StopMonitoring, UpdateTray,
      Send ''vpn:status-change'', Send ''vpn:disconnected'']
   \<and> \<not> precedes StopMonitoring (Kill 0) (trace (snd (disconnectVPN False online)))
   \<and> \<not> precedes StopMonitoring (ConfigureProxy False)
         (trace (snd (disconnectVPN False online)))
   \<and> lastConnectedIP (snd (disconnectVPN False online)) = Some ''203.0.113.7''"
  by (simp add: step_defs sample_defs precedes_def firstAt_def)

text \<open>
  Claim C7, amended. A disconnect of a connected supervisor performs its steps in this
  order: it kills the tunnel process (when there is one), disables the system proxy,
  stops the monitor, updates the tray and notifies the window (when there is one); it
  ends disconnected, with no process handle and no connection start time, and with the
  last detected address as it was. This is every disconnect that reports success, and
  every disconnect in which no call throws reports success. A call that throws ends the
  sequence where it stands: what has happened by then is a beginning of the same
  sequence, never another order.
\<close>

theorem disconnectVPN_order:
  assumes "isConnected s"
  shows "(success (fst (disconnectVPN b s)) \<longrightarrow>
           trace (snd (disconnectVPN b s)) =
             trace s @ (case xrayProcess s of None \<Rightarrow> [] | Some p \<Rightarrow> [Kill p])
                     @ [ConfigureProxy False, StopMonitoring, UpdateTray]
                     @ (if mainWindow s
                        then [Send ''vpn:status-change'', Send ''vpn:disconnected''] else [])
           \<and> \<not> isConnected (snd (disconnectVPN b s))
           \<and> xrayProcess (snd (disconnectVPN b s)) = None
           \<and> connectionStartTime (snd (disconnectVPN b s)) = None)
       \<and> (faults s = noFaults \<longrightarrow> success (fst (disconnectVPN b s)))
       \<and> prefix (trace (snd (disconnectVPN b s)))
           (trace s @ (case xrayProcess s of None \<Rightarrow> [] | Some p \<Rightarrow> [Kill p])
                    @ [ConfigureProxy False, StopMonitoring, UpdateTray]
                    @ (if mainWindow s
                       then [Send ''vpn:status-change'', Send ''vpn:disconnected''] else []))
       \<and> lastConnectedIP (snd (disconnectVPN b s)) = lastConnectedIP s"
proof (cases "disconnectBody s")
  case (Inl p)
  obtain e s' where p: "p = (e, s')" by (cases p)
  with Inl assms have r: "disconnectVPN b s = (FailedToDisconnect e, s')"
    by (simp add: disconnectVPN_def)
  from Inl p have body: "disconnectBody s = Inl (e, s')" by simp
  from disconnectBody_noFaults [of s] body have "faults s \<noteq> noFaults" by auto
  with r disconnectBody_thrown(1) [OF body] disconnectVPN_keeps(7) [of b s]
  show ?thesis by simp
next
  case (Inr s')
  with assms have r: "disconnectVPN b s = (DisconnectedSuccessfully, s')"
    by (simp add: disconnectVPN_def)
  from disconnectBody_done [OF Inr] r disconnectVPN_keeps(7) [of b s]
  show ?thesis by simp
qed

theorem disconnectVPN_order_witness:
  "isConnected online \<and> faults online = noFaults
   \<and> success (fst (disconnectVPN True online))
   \<and> trace (snd (disconnectVPN True online)) =
       [Kill 0, ConfigureProxy False, StopMonitoring, UpdateTray,
        Send ''vpn:status-change'', Send ''vpn:disconnected'']
   \<and> \<not> isConnected (snd (disconnectVPN True online))"
proof -
  have c: "isConnected online" and f: "faults online = noFaults"
    by (simp_all add: sample_defs)
  from disconnectVPN_order [OF c, of True] c f show ?thesis by (simp add: sample_defs)
qed

section \<open>The tunnel process exits\<close>

text \<open>
  Claim C8. When the tunnel process closes while the supervisor is connected, the
  listener runs the silent disconnect and the supervisor is disconnected afterwards,
  without a call from anyone else; when it closes while the supervisor is not connected,
  the listener does nothing. The child has exited, and a kill of a child that has exited
  does not throw; whatever else throws in the teardown throws after
  \<^verbatim>\<open>isConnected = false\<close>.
\<close>

theorem onClose_disconnects:
  "(isConnected s \<longrightarrow>
      onClose s = snd (disconnectVPN True s)
      \<and> (\<not> killThrows (faults s) \<longrightarrow> \<not> isConnected (onClose s)))
   \<and> (\<not> isConnected s \<longrightarrow> onClose s = s)"
  using disconnectVPN_disconnects [of s True] by (simp add: onClose_def)

theorem onClose_disconnects_witness:
  "isConnected online \<and> \<not> killThrows (faults online) \<and> \<not> isConnected (onClose online)
   \<and> trace (onClose online) =
       [Kill 0, ConfigureProxy False, StopMonitoring, UpdateTray,
        Send ''vpn:status-change'', Send ''vpn:disconnected'']
   \<and> \<not> isConnected idle \<and> onClose idle = idle"
proof -
  have c: "isConnected online" and d: "\<not> isConnected idle"
    and k: "\<not> killThrows (faults online)"
    by (simp_all add: sample_defs)
  from onClose_disconnects [of online] onClose_disconnects [of idle] c d k
  show ?thesis by (simp add: step_defs sample_defs)
qed

section \<open>Re-entrant calls\<close>

text \<open>
  Claim C6, as the claim states it: a connect invoked while a connect is in progress
  spawns no second tunnel process. \<^verbatim>\<open>connectVPN\<close> guards on \<open>isConnected\<close> alone,
  and the main process has no variable for a connect in flight: called in the state in
  which an earlier call awaits the readiness of process 0, it spawns process 1 and
  replaces the handle.
\<close>

theorem connectVPN_while_connecting_spawns:
  "fst (connectVPN False healthy midConnect) = ConnectedSuccessfully
   \<and> xrayProcess (snd (connectVPN False healthy midConnect)) = Some 1
   \<and> trace (snd (connectVPN False healthy midConnect)) =
       [StopMonitoring, WriteConfig ''A'', Spawn 0,
        StopMonitoring, WriteConfig ''A'', Spawn 1, ConfigureProxy True, TestConnection,
        UpdateTray, Send ''vpn:connected'', StartMonitoring ''203.0.113.7'',
        TestConnection]"
  by (simp add: step_defs sample_defs tryConnect.simps)

text \<open>
  Claim C6, amended. \<^verbatim>\<open>connectVPN\<close> invoked while connected answers
  \<^verbatim>\<open>Already connected\<close> and changes nothing, so no process is spawned. The states
  in between are the window's: its \<^verbatim>\<open>connect\<close> while it is connecting or connected,
  and its \<^verbatim>\<open>disconnect\<close> while it is disconnecting, return without a call into the
  main process and without a change of the window's state.
\<close>

theorem reentrancy_guards:
  "(isConnected s \<longrightarrow> connectVPN e a s = (AlreadyConnected, s))
   \<and> (ui_isConnected u \<or> ui_isConnecting u \<longrightarrow> connect pg u = u)
   \<and> (ui_isDisconnecting u \<longrightarrow> disconnect pg u = u)"
  by (simp add: connectVPN_def connect_def disconnect_def)

theorem reentrancy_guards_witness:
  "isConnected online \<and> connectVPN False healthy online = (AlreadyConnected, online)
   \<and> ui_isConnecting (atRest\<lparr>ui_isConnecting := True\<rparr>)
   \<and> connect page0 (atRest\<lparr>ui_isConnecting := True\<rparr>) = atRest\<lparr>ui_isConnecting := True\<rparr>
   \<and> ui_isConnected (atRest\<lparr>ui_isConnected := True\<rparr>)
   \<and> connect page0 (atRest\<lparr>ui_isConnected := True\<rparr>) = atRest\<lparr>ui_isConnected := True\<rparr>
   \<and> ui_isDisconnecting (atRest\<lparr>ui_isConnected := True, ui_isDisconnecting := True\<rparr>)
   \<and> disconnect page0 (atRest\<lparr>ui_isConnected := True, ui_isDisconnecting := True\<rparr>)
       = atRest\<lparr>ui_isConnected := True, ui_isDisconnecting := True\<rparr>
   \<and> ui_calls (connect page0 atRest) = [UpdateUI, ApiConnect]
   \<and> ui_calls (disconnect page0 (atRest\<lparr>ui_isConnected := True\<rparr>)) = [UpdateUI, ApiDisconnect]"
proof -
  have c: "isConnected online" by (simp add: sample_defs)
  have g: "ui_isConnecting (atRest\<lparr>ui_isConnecting := True\<rparr>)" by simp
  have k: "ui_isConnected (atRest\<lparr>ui_isConnected := True\<rparr>)" by simp
  have d: "ui_isDisconnecting (atRest\<lparr>ui_isConnected := True, ui_isDisconnecting := True\<rparr>)"
    by simp
  from reentrancy_guards [of online False healthy "atRest\<lparr>ui_isConnecting := True\<rparr>" page0]
    reentrancy_guards [of online False healthy "atRest\<lparr>ui_isConnected := True\<rparr>" page0]
    reentrancy_guards [of online False healthy
      "atRest\<lparr>ui_isConnected := True, ui_isDisconnecting := True\<rparr>" page0] c g k d
  show ?thesis
    by (simp add: connect_def disconnect_def call_def atRest_def page0_def Let_def)
qed

section \<open>Ranking\<close>

lemma sorted_rankSamples: "sorted (map (\<lambda>c. the (snd c)) (rankSamples cs))"
  by (simp add: rankSamples_def)

lemma mset_rankSamples: "mset (rankSamples cs) = mset (filter (\<lambda>c. snd c \<noteq> None) cs)"
  by (simp add: rankSamples_def)

lemma set_rankSamples: "set (rankSamples cs) = {c \<in> set cs. snd c \<noteq> None}"
  by (auto simp: rankSamples_def)

text \<open>
  Claim C3. Every candidate is probed once; the ranked list holds exactly the candidates
  with a latency, each as often as among the candidates, in ascending order of latency;
  a candidate without a latency is not in it at any position. For the candidates
  A with 50, B with no answer and C with 10 the ranked list is C, A.
\<close>

theorem rankSamples_ascending_reachable_only:
  "map fst (probeAll png cands) = cands
   \<and> map snd (probeAll png cands) = map (\<lambda>sv. png (sid sv)) cands
   \<and> sorted (map (\<lambda>c. the (snd c)) (rankSamples cs))
   \<and> mset (rankSamples cs) = mset (filter (\<lambda>c. snd c \<noteq> None) cs)
   \<and> filter (\<lambda>c. snd c = None) (rankSamples cs) = []
   \<and> map (sid \<circ> fst) (rankSamples [(srvA, Some 50), (srvB, None), (srvC, Some 10)])
       = [''C'', ''A'']"
proof -
  have "filter (\<lambda>c. snd c = None) (rankSamples cs) = []"
    by (auto simp: filter_empty_conv set_rankSamples)
  moreover have "map (sid \<circ> fst) (rankSamples [(srvA, Some 50), (srvB, None), (srvC, Some 10)])
       = [''C'', ''A'']"
    by (simp add: rankSamples_def srvA_def srvB_def srvC_def)
  moreover have "map fst (probeAll png cands) = cands"
    by (simp add: probeAll_def comp_def)
  moreover have "map snd (probeAll png cands) = map (\<lambda>sv. png (sid sv)) cands"
    by (simp add: probeAll_def comp_def)
  ultimately show ?thesis
    using sorted_rankSamples mset_rankSamples by blast
qed

section \<open>What the operations leave alone\<close>

lemma connectBody_keeps:
  "connectBody e a srv s = Inr s' \<Longrightarrow> autoReconnectEnabled s' = autoReconnectEnabled s"
  "connectBody e a srv s = Inl (x, s') \<Longrightarrow> autoReconnectEnabled s' = autoReconnectEnabled s"
  by (auto simp: connectBody_def emit_def configureProxy_def Let_def
      split: option.splits if_splits)

lemma connectVPN_keeps:
  "autoReconnectEnabled (snd (connectVPN e a s)) = autoReconnectEnabled s"
proof (cases "isConnected s")
  case True
  then show ?thesis by (simp add: connectVPN_def)
next
  case False
  show ?thesis
  proof (cases "getActiveServer s")
    case None
    with False show ?thesis by (simp add: connectVPN_def)
  next
    case (Some srv)
    show ?thesis
    proof (cases "connectBody e a srv (emit StopMonitoring s)")
      case (Inl p)
      obtain x s' where p: "p = (x, s')" by (cases p)
      from connectBody_keeps(2) [of e a srv "emit StopMonitoring s" x s'] Inl p
      have "autoReconnectEnabled s' = autoReconnectEnabled s" by (simp add: emit_def)
      with False Some Inl p show ?thesis
        by (simp add: connectVPN_def disconnectVPN_keeps)
    next
      case (Inr s')
      from connectBody_keeps(1) [OF Inr]
      have "autoReconnectEnabled s' = autoReconnectEnabled s" by (simp add: emit_def)
      with False Some Inr show ?thesis by (simp add: connectVPN_def)
    qed
  qed
qed

lemma storeSetActive_keeps:
  "autoReconnectEnabled (storeSetActive i s) = autoReconnectEnabled s"
  by (simp add: storeSetActive_def emit_def)

lemma failoverLoop_keeps:
  "autoReconnectEnabled (snd (failoverLoop w i rs s)) = autoReconnectEnabled s"
proof (induction rs arbitrary: i s)
  case Nil
  show ?case by simp
next
  case (Cons r rs)
  obtain res s2 where c: "connectVPN True (attempts w i) (storeSetActive (sid r) s) = (res, s2)"
    by (cases "connectVPN True (attempts w i) (storeSetActive (sid r) s)")
  from connectVPN_keeps [of True "attempts w i" "storeSetActive (sid r) s"] c
  have k: "autoReconnectEnabled s2 = autoReconnectEnabled s"
    by (simp add: storeSetActive_keeps)
  show ?case
  proof (cases "success res")
    case True
    with c k show ?thesis by (simp add: emit_def)
  next
    case False
    with c k Cons.IH show ?thesis by (simp add: disconnectVPN_keeps)
  qed
qed

lemma markFailed_keeps:
  "autoReconnectEnabled (markFailed s) = autoReconnectEnabled s"
  "store (markFailed s) = store s"
  "spawned (markFailed s) = spawned s"
  "trace (markFailed s) = trace s"
  "isConnected (markFailed s) = isConnected s"
  "xrayProcess (markFailed s) = xrayProcess s"
  "mainWindow (markFailed s) = mainWindow s"
  "faults (markFailed s) = faults s"
  by (simp_all add: markFailed_def)

lemma failoverBody_keeps:
  "autoReconnectEnabled (snd (failoverBody w s)) = autoReconnectEnabled s"
  by (simp add: failoverBody_def Let_def disconnectVPN_keeps markFailed_keeps failoverLoop_keeps
      split: sum.split)

section \<open>The in-progress flag\<close>

text \<open>
  Claim C10. Every call of \<^verbatim>\<open>handleConnectionFailure\<close> that passes the entry guard
  ends with \<open>isAutoFailoverInProgress\<close> false, whatever the outside answers: a failover
  that connects, one that runs out of servers, one whose ranking call throws. The
  automatic reconnection setting is not changed on the way, so the state it leaves
  passes the entry guard again: a later failure report starts a new episode.
\<close>

theorem handleConnectionFailure_resets_flag:
  assumes "entryGuard s"
  shows "\<not> isAutoFailoverInProgress (handleConnectionFailure w s)
         \<and> entryGuard (handleConnectionFailure w s)"
proof -
  obtain thrown s1 where b: "failoverBody w (s\<lparr>isAutoFailoverInProgress := True\<rparr>) = (thrown, s1)"
    by (cases "failoverBody w (s\<lparr>isAutoFailoverInProgress := True\<rparr>)")
  from assms b have h: "handleConnectionFailure w s = s1\<lparr>isAutoFailoverInProgress := False\<rparr>"
    by (simp add: handleConnectionFailure_def entryGuard_def)
  from failoverBody_keeps [of w "s\<lparr>isAutoFailoverInProgress := True\<rparr>"] b
  have "autoReconnectEnabled s1 = autoReconnectEnabled s" by simp
  with assms h show ?thesis by (simp add: entryGuard_def)
qed

theorem handleConnectionFailure_resets_flag_witness:
  "entryGuard online
   \<and> \<not> isAutoFailoverInProgress (handleConnectionFailure reachable online)
   \<and> entryGuard (handleConnectionFailure reachable online)
   \<and> isConnected (handleConnectionFailure reachable online)
   \<and> \<not> isAutoFailoverInProgress (handleConnectionFailure deaf online)
   \<and> \<not> isConnected (handleConnectionFailure deaf online)
   \<and> \<not> isAutoFailoverInProgress
         (handleConnectionFailure (deaf\<lparr>rankingResolves := False\<rparr>) online)"
proof -
  have g: "entryGuard online" by (simp add: entryGuard_def sample_defs)
  have c: "isConnected (handleConnectionFailure reachable online)"
    by (simp add: failover_defs run_defs sample_defs tryConnect.simps)
  have d: "\<not> isConnected (handleConnectionFailure deaf online)"
    by (simp add: failover_defs run_defs sample_defs)
  from handleConnectionFailure_resets_flag [OF g, of reachable]
    handleConnectionFailure_resets_flag [OF g, of deaf]
    handleConnectionFailure_resets_flag [OF g, of "deaf\<lparr>rankingResolves := False\<rparr>"] g c d
  show ?thesis by simp
qed

section \<open>Failover that stops before any attempt\<close>

lemma sort_key_empty: "(sort_key f xs = []) = (xs = [])"
  by (metis length_sort length_0_conv)

lemma getRankedServers_empty:
  "rankingResolves w \<Longrightarrow>
   (getRankedServers w cands = Inr []) = (\<forall>sv \<in> set cands. ping w (sid sv) = None)"
  by (auto simp: getRankedServers_def rankSamples_def probeAll_def sort_key_empty
      filter_empty_conv)

lemma availableServers_after_disconnect:
  "availableServers (snd (disconnectVPN b (markFailed (s\<lparr>isAutoFailoverInProgress := f\<rparr>))))
     = availableServers (markFailed s)"
  by (simp add: availableServers_def disconnectVPN_keeps markFailed_def)

lemma trace_after_disconnect:
  "trace (snd (disconnectVPN b (markFailed (s\<lparr>isAutoFailoverInProgress := f\<rparr>))))
     = trace (snd (disconnectVPN b s))"
  by (cases "xrayProcess s"; cases "killThrows (faults s)";
      cases "stopMonitoringThrows (faults s)"; cases "sendThrows (faults s)";
      cases "mainWindow s"; cases "isConnected s")
     (simp_all add: disconnectVPN_def disconnectBody_def markFailed_def configureProxy_def
        emit_def Let_def)

lemma session_after_disconnect:
  "sessionFailedServers
     (snd (disconnectVPN b (markFailed (s\<lparr>isAutoFailoverInProgress := f\<rparr>))))
     = sessionFailedServers (markFailed s)"
  by (simp add: disconnectVPN_keeps markFailed_def)

text \<open>
  Claim C5, as the claim states it: a failover whose candidates do not answer the probe
  ends with the same outcome as one that has no candidates. The two outcomes differ in
  the session list. With A connected and B, C silent, the candidates are B and C, the
  ranking is empty and the episode ends with A still on the session list; with B and C
  on the session list already, there are no candidates and the episode ends with the
  session list empty.
\<close>

theorem unreachable_candidates_keep_session:
  "availableServers (markFailed online) = [srvB, srvC]
   \<and> getRankedServers deaf (availableServers (markFailed online)) = Inr []
   \<and> sessionFailedServers (handleConnectionFailure deaf online) = [''A'']
   \<and> availableServers (markFailed (online\<lparr>sessionFailedServers := [''B'', ''C'']\<rparr>)) = []
   \<and> sessionFailedServers
        (handleConnectionFailure deaf (online\<lparr>sessionFailedServers := [''B'', ''C'']\<rparr>)) = []"
  by (simp add: failover_defs run_defs sample_defs)

text \<open>
  Claim C5, amended. In an episode that passes the entry guard: when the candidate set
  (the servers of the store that are not on the session list, after the active one was
  put on it) is empty, the episode empties the session list and stops; when the
  candidate set is not empty but the ranking comes back empty, the episode stops and
  keeps the session list, the server that just failed included. In both cases nothing
  but the disconnect has happened: no tunnel process was spawned, the supervisor is
  disconnected (the kill of the disconnect not having thrown) and the in-progress flag
  is false.
\<close>

theorem failover_stops_without_attempt:
  assumes "entryGuard s"
  shows "(availableServers (markFailed s) = [] \<longrightarrow>
            sessionFailedServers (handleConnectionFailure w s) = []
            \<and> trace (handleConnectionFailure w s) = trace (snd (disconnectVPN True s))
            \<and> spawned (handleConnectionFailure w s) = spawned s
            \<and> (\<not> killThrows (faults s) \<longrightarrow> \<not> isConnected (handleConnectionFailure w s))
            \<and> \<not> isAutoFailoverInProgress (handleConnectionFailure w s))
       \<and> (availableServers (markFailed s) \<noteq> []
            \<and> getRankedServers w (availableServers (markFailed s)) = Inr [] \<longrightarrow>
            sessionFailedServers (handleConnectionFailure w s) = sessionFailedServers (markFailed s)
            \<and> trace (handleConnectionFailure w s) = trace (snd (disconnectVPN True s))
            \<and> spawned (handleConnectionFailure w s) = spawned s
            \<and> (\<not> killThrows (faults s) \<longrightarrow> \<not> isConnected (handleConnectionFailure w s))
            \<and> \<not> isAutoFailoverInProgress (handleConnectionFailure w s))"
proof -
  let ?s0 = "s\<lparr>isAutoFailoverInProgress := True\<rparr>"
  let ?s2 = "snd (disconnectVPN True (markFailed ?s0))"
  have av: "availableServers ?s2 = availableServers (markFailed s)"
    by (rule availableServers_after_disconnect)
  have tr: "trace ?s2 = trace (snd (disconnectVPN True s))"
    by (rule trace_after_disconnect)
  have se: "sessionFailedServers ?s2 = sessionFailedServers (markFailed s)"
    by (rule session_after_disconnect)
  have sp: "spawned ?s2 = spawned s"
    by (simp add: disconnectVPN_keeps markFailed_keeps)
  have nc: "\<not> killThrows (faults s) \<longrightarrow> \<not> isConnected ?s2"
    by (simp add: disconnectVPN_disconnects markFailed_keeps)
  have h: "handleConnectionFailure w s =
             (snd (failoverBody w ?s0))\<lparr>isAutoFailoverInProgress := False\<rparr>"
    using assms by (simp add: handleConnectionFailure_def entryGuard_def split_beta)
  have e: "availableServers (markFailed s) = [] \<Longrightarrow>
             snd (failoverBody w ?s0) = ?s2\<lparr>sessionFailedServers := []\<rparr>"
    using av by (simp add: failoverBody_def Let_def)
  have r: "availableServers (markFailed s) \<noteq> [] \<Longrightarrow>
             getRankedServers w (availableServers (markFailed s)) = Inr [] \<Longrightarrow>
             snd (failoverBody w ?s0) = ?s2"
    using av by (simp add: failoverBody_def Let_def)
  show ?thesis
    using h e r tr se sp nc by simp
qed

theorem failover_stops_without_attempt_witness:
  "entryGuard online
   \<and> availableServers (markFailed (online\<lparr>sessionFailedServers := [''B'', ''C'']\<rparr>)) = []
   \<and> sessionFailedServers
        (handleConnectionFailure deaf (online\<lparr>sessionFailedServers := [''B'', ''C'']\<rparr>)) = []
   \<and> availableServers (markFailed online) \<noteq> []
   \<and> getRankedServers deaf (availableServers (markFailed online)) = Inr []
   \<and> sessionFailedServers (handleConnectionFailure deaf online) = [''A'']
   \<and> trace (handleConnectionFailure deaf online) =
        [Kill 0, ConfigureProxy False, StopMonitoring, UpdateTray,
         Send ''vpn:status-change'', Send ''vpn:disconnected'']
   \<and> spawned (handleConnectionFailure deaf online) = spawned online"
proof -
  have g: "entryGuard online"
    and g': "entryGuard (online\<lparr>sessionFailedServers := [''B'', ''C'']\<rparr>)"
    by (simp_all add: entryGuard_def sample_defs)
  have a: "availableServers (markFailed (online\<lparr>sessionFailedServers := [''B'', ''C'']\<rparr>)) = []"
    by (simp add: failover_defs sample_defs)
  have b: "availableServers (markFailed online) \<noteq> []"
    by (simp add: failover_defs sample_defs)
  have c: "getRankedServers deaf (availableServers (markFailed online)) = Inr []"
    by (simp add: failover_defs sample_defs)
  have m: "sessionFailedServers (markFailed online) = [''A'']"
    by (simp add: failover_defs sample_defs)
  have t: "trace (snd (disconnectVPN True online)) =
        [Kill 0, ConfigureProxy False, StopMonitoring, UpdateTray,
         Send ''vpn:status-change'', Send ''vpn:disconnected'']"
    by (simp add: step_defs sample_defs)
  from failover_stops_without_attempt [OF g, of deaf]
    failover_stops_without_attempt [OF g', of deaf] g a b c m t
  show ?thesis by simp
qed

section \<open>The retry loop\<close>

lemma attemptStart_lower: "startTime + 200 * k \<le> attemptStart nw port host startTime k"
  by (induction k) auto

lemma tryConnect_rejects:
  "timeout < now - startTime \<Longrightarrow>
   tryConnect nw port host timeout startTime now k =
     \<lparr>resolved = False, settled_at = now, tries = k\<rparr>"
  by (subst tryConnect.simps) simp

lemma tryConnect_accepts:
  "\<not> timeout < now - startTime \<Longrightarrow> fst (nw port host k) \<Longrightarrow>
   tryConnect nw port host timeout startTime now k =
     \<lparr>resolved = True, settled_at = now + snd (nw port host k), tries = Suc k\<rparr>"
  by (subst tryConnect.simps) simp

lemma tryConnect_retries:
  "\<not> timeout < now - startTime \<Longrightarrow> \<not> fst (nw port host k) \<Longrightarrow>
   tryConnect nw port host timeout startTime now k =
     tryConnect nw port host timeout startTime (now + snd (nw port host k) + 200) (Suc k)"
  by (subst tryConnect.simps) simp

lemma tryConnect_resolved:
  "now = attemptStart nw port host startTime k \<Longrightarrow>
   resolved (tryConnect nw port host timeout startTime now k) \<Longrightarrow>
   \<exists>n. tries (tryConnect nw port host timeout startTime now k) = Suc n
      \<and> k \<le> n \<and> fst (nw port host n)
      \<and> attemptStart nw port host startTime n \<le> startTime + timeout
      \<and> settled_at (tryConnect nw port host timeout startTime now k) =
          attemptStart nw port host startTime n + snd (nw port host n)
      \<and> (\<forall>j. k \<le> j \<and> j < n \<longrightarrow> \<not> fst (nw port host j))"
proof (induction nw port host timeout startTime now k rule: tryConnect.induct)
  case (1 nw port host timeout startTime now k)
  show ?case
  proof (cases "timeout < now - startTime")
    case True
    with "1.prems"(2) show ?thesis by (simp add: tryConnect_rejects)
  next
    case late: False
    show ?thesis
    proof (cases "fst (nw port host k)")
      case True
      with late "1.prems"(1) show ?thesis
        by (auto simp: tryConnect_accepts intro!: exI [of _ k])
    next
      case False
      let ?now = "now + snd (nw port host k) + 200"
      have eq: "tryConnect nw port host timeout startTime now k =
                tryConnect nw port host timeout startTime ?now (Suc k)"
        using late False by (rule tryConnect_retries)
      have st: "?now = attemptStart nw port host startTime (Suc k)"
        using "1.prems"(1) by simp
      from "1.IH" [OF late False st] "1.prems"(2) eq
      obtain n where n: "tries (tryConnect nw port host timeout startTime ?now (Suc k)) = Suc n"
        "Suc k \<le> n" "fst (nw port host n)"
        "attemptStart nw port host startTime n \<le> startTime + timeout"
        "settled_at (tryConnect nw port host timeout startTime ?now (Suc k)) =
          attemptStart nw port host startTime n + snd (nw port host n)"
        "\<forall>j. Suc k \<le> j \<and> j < n \<longrightarrow> \<not> fst (nw port host j)"
        by auto
      have "\<forall>j. k \<le> j \<and> j < n \<longrightarrow> \<not> fst (nw port host j)"
      proof (intro allI impI)
        fix j assume "k \<le> j \<and> j < n"
        then have "j = k \<or> (Suc k \<le> j \<and> j < n)" by arith
        with False n(6) show "\<not> fst (nw port host j)" by blast
      qed
      with n eq show ?thesis by (auto intro!: exI [of _ n])
    qed
  qed
qed

lemma tryConnect_rejected:
  "now = attemptStart nw port host startTime k \<Longrightarrow>
   \<not> resolved (tryConnect nw port host timeout startTime now k) \<Longrightarrow>
   k \<le> tries (tryConnect nw port host timeout startTime now k)
   \<and> settled_at (tryConnect nw port host timeout startTime now k) =
       attemptStart nw port host startTime
         (tries (tryConnect nw port host timeout startTime now k))
   \<and> startTime + timeout < settled_at (tryConnect nw port host timeout startTime now k)
   \<and> (\<forall>j. k \<le> j \<and> j < tries (tryConnect nw port host timeout startTime now k)
          \<longrightarrow> \<not> fst (nw port host j))
   \<and> (k < tries (tryConnect nw port host timeout startTime now k) \<longrightarrow>
        attemptStart nw port host startTime
          (tries (tryConnect nw port host timeout startTime now k) - 1)
          \<le> startTime + timeout)"
proof (induction nw port host timeout startTime now k rule: tryConnect.induct)
  case (1 nw port host timeout startTime now k)
  show ?case
  proof (cases "timeout < now - startTime")
    case True
    with "1.prems"(1) show ?thesis by (auto simp: tryConnect_rejects)
  next
    case late: False
    show ?thesis
    proof (cases "fst (nw port host k)")
      case True
      with late "1.prems"(2) show ?thesis by (simp add: tryConnect_accepts)
    next
      case False
      let ?now = "now + snd (nw port host k) + 200"
      let ?r = "tryConnect nw port host timeout startTime ?now (Suc k)"
      have eq: "tryConnect nw port host timeout startTime now k = ?r"
        using late False by (rule tryConnect_retries)
      have st: "?now = attemptStart nw port host startTime (Suc k)"
        using "1.prems"(1) by simp
      from "1.prems"(2) eq have nr: "\<not> resolved ?r" by simp
      note ih = "1.IH" [OF late False st nr]
      have a: "k \<le> tries ?r" using ih by simp
      have b: "settled_at ?r = attemptStart nw port host startTime (tries ?r)"
        using ih by simp
      have c: "startTime + timeout < settled_at ?r" using ih by simp
      have d: "\<forall>j. k \<le> j \<and> j < tries ?r \<longrightarrow> \<not> fst (nw port host j)"
      proof (intro allI impI)
        fix j assume "k \<le> j \<and> j < tries ?r"
        then have "j = k \<or> (Suc k \<le> j \<and> j < tries ?r)" by arith
        with False ih show "\<not> fst (nw port host j)" by blast
      qed
      have e: "attemptStart nw port host startTime (tries ?r - 1) \<le> startTime + timeout"
      proof (cases "Suc k < tries ?r")
        case True
        with ih show ?thesis by simp
      next
        case False
        with ih have "tries ?r = Suc k" by simp
        with late "1.prems"(1) show ?thesis by simp
      qed
      from a b c d e show ?thesis unfolding eq by simp
    qed
  qed
qed

text \<open>
  Claim C9, as the claim states it: for every port and host the wait terminates within
  the 10 second budget. The budget is looked at only when a connection is about to be
  opened. Against a port that refuses at once, the 51st connection is opened at 10000 ms
  and the promise is rejected at 10200 ms; against a port that accepts after 12 seconds,
  the promise resolves at 12000 ms.
\<close>

theorem waitForProxy_settles_after_budget:
  "waitForProxy refusing 10808 ''127.0.0.1'' 10000 0 =
     \<lparr>resolved = False, settled_at = 10200, tries = 51\<rparr>
   \<and> waitForProxy sluggish 10808 ''127.0.0.1'' 10000 0 =
     \<lparr>resolved = True, settled_at = 12000, tries = 1\<rparr>"
  by (simp add: waitForProxy_def refusing_def sluggish_def tryConnect.simps)

text \<open>
  Claim C9, amended. The readiness wait is a bounded active-retry loop, not a fixed
  sleep. It opens connections to the port one after another, each 200 ms after the one
  before it was refused, and opens at most \<open>timeout div 200 + 1\<close> of them (51 for the
  default of 10 seconds). It resolves at the first accepted connection, which was opened
  within the budget. It rejects with the timeout error when a connection falls due later
  than the budget after the start, all connections before having been refused; that is
  no later than the budget plus the time the last connection took plus 200 ms after the
  start. When no connection takes longer than \<open>D\<close> ms, it settles within the budget
  plus \<open>D\<close> plus 200 ms of the start.
\<close>

theorem waitForProxy_bounded_retry:
  "tries (waitForProxy nw port host timeout startTime) \<le> timeout div 200 + 1
   \<and> (resolved (waitForProxy nw port host timeout startTime) \<longrightarrow>
        (\<exists>n. tries (waitForProxy nw port host timeout startTime) = Suc n
           \<and> fst (nw port host n)
           \<and> (\<forall>j. j < n \<longrightarrow> \<not> fst (nw port host j))
           \<and> attemptStart nw port host startTime n \<le> startTime + timeout
           \<and> settled_at (waitForProxy nw port host timeout startTime) =
               attemptStart nw port host startTime n + snd (nw port host n)))
   \<and> (\<not> resolved (waitForProxy nw port host timeout startTime) \<longrightarrow>
        (\<forall>j. j < tries (waitForProxy nw port host timeout startTime)
              \<longrightarrow> \<not> fst (nw port host j))
        \<and> settled_at (waitForProxy nw port host timeout startTime) =
            attemptStart nw port host startTime
              (tries (waitForProxy nw port host timeout startTime))
        \<and> startTime + timeout < settled_at (waitForProxy nw port host timeout startTime)
        \<and> 0 < tries (waitForProxy nw port host timeout startTime)
        \<and> settled_at (waitForProxy nw port host timeout startTime)
            \<le> startTime + timeout
                + snd (nw port host (tries (waitForProxy nw port host timeout startTime) - 1))
                + 200)
   \<and> ((\<forall>k. snd (nw port host k) \<le> D) \<longrightarrow>
        settled_at (waitForProxy nw port host timeout startTime)
          \<le> startTime + timeout + D + 200)"
proof -
  let ?r = "waitForProxy nw port host timeout startTime"
  let ?at = "attemptStart nw port host startTime"
  have r: "?r = tryConnect nw port host timeout startTime startTime 0"
    by (simp add: waitForProxy_def)
  have s0: "startTime = ?at 0" by simp
  have yes: "\<exists>n. tries ?r = Suc n \<and> fst (nw port host n)
      \<and> (\<forall>j. j < n \<longrightarrow> \<not> fst (nw port host j))
      \<and> ?at n \<le> startTime + timeout
      \<and> settled_at ?r = ?at n + snd (nw port host n)" if "resolved ?r"
    using tryConnect_resolved [OF s0, of timeout] that unfolding r by auto
  have no: "(\<forall>j. j < tries ?r \<longrightarrow> \<not> fst (nw port host j))
      \<and> settled_at ?r = ?at (tries ?r)
      \<and> startTime + timeout < settled_at ?r
      \<and> (0 < tries ?r \<longrightarrow> ?at (tries ?r - 1) \<le> startTime + timeout)" if "\<not> resolved ?r"
    using tryConnect_rejected [OF s0, of timeout] that unfolding r by auto
  have bound: "tries ?r \<le> timeout div 200 + 1"
  proof (cases "resolved ?r")
    case True
    from yes [OF True] obtain n where n: "tries ?r = Suc n" "?at n \<le> startTime + timeout"
      by blast
    from attemptStart_lower [of startTime n nw port host] n(2)
    have "200 * n \<le> timeout" by simp
    then have "n \<le> timeout div 200" by arith
    with n(1) show ?thesis by simp
  next
    case False
    show ?thesis
    proof (cases "tries ?r")
      case 0
      then show ?thesis by simp
    next
      case (Suc m)
      with no [OF False] have "?at m \<le> startTime + timeout" by simp
      with attemptStart_lower [of startTime m nw port host]
      have "200 * m \<le> timeout" by simp
      then have "m \<le> timeout div 200" by arith
      with Suc show ?thesis by simp
    qed
  qed
  have slack: "settled_at ?r \<le> startTime + timeout + D + 200"
    if d: "\<forall>k. snd (nw port host k) \<le> D"
  proof (cases "resolved ?r")
    case True
    from yes [OF True] obtain n where n: "?at n \<le> startTime + timeout"
      "settled_at ?r = ?at n + snd (nw port host n)"
      by blast
    from d have "snd (nw port host n) \<le> D" by blast
    with n show ?thesis by simp
  next
    case False
    note f = no [OF False]
    show ?thesis
    proof (cases "tries ?r")
      case 0
      with f show ?thesis by simp
    next
      case (Suc m)
      with f have m: "?at m \<le> startTime + timeout"
        and s: "settled_at ?r = ?at m + snd (nw port host m) + 200"
        by simp_all
      from d have "snd (nw port host m) \<le> D" by blast
      with m s show ?thesis by simp
    qed
  qed
  have last: "0 < tries ?r
      \<and> settled_at ?r \<le> startTime + timeout + snd (nw port host (tries ?r - 1)) + 200"
    if f: "\<not> resolved ?r"
  proof (cases "tries ?r")
    case 0
    with no [OF f] show ?thesis by simp
  next
    case (Suc m)
    with no [OF f] have "?at m \<le> startTime + timeout"
      and "settled_at ?r = ?at m + snd (nw port host m) + 200"
      by simp_all
    with Suc show ?thesis by simp
  qed
  from bound yes no slack last show ?thesis by blast
qed

theorem waitForProxy_bounded_retry_witness:
  "tries (waitForProxy thirdTime 10808 ''127.0.0.1'' 10000 0) \<le> 51
   \<and> waitForProxy thirdTime 10808 ''127.0.0.1'' 10000 0 =
       \<lparr>resolved = True, settled_at = 490, tries = 3\<rparr>
   \<and> attemptStart thirdTime 10808 ''127.0.0.1'' 0 2 = 460
   \<and> \<not> resolved (waitForProxy refusing 10808 ''127.0.0.1'' 10000 0)
   \<and> 10000 < settled_at (waitForProxy refusing 10808 ''127.0.0.1'' 10000 0)
   \<and> settled_at (waitForProxy refusing 10808 ''127.0.0.1'' 10000 0) \<le> 10200"
proof -
  have a: "waitForProxy thirdTime 10808 ''127.0.0.1'' 10000 0 =
       \<lparr>resolved = True, settled_at = 490, tries = 3\<rparr>"
    by (simp add: waitForProxy_def thirdTime_def tryConnect.simps)
  have b: "attemptStart thirdTime 10808 ''127.0.0.1'' 0 2 = 460"
    by (simp add: thirdTime_def numeral_2_eq_2)
  have c: "\<not> resolved (waitForProxy refusing 10808 ''127.0.0.1'' 10000 0)"
    by (simp add: waitForProxy_def refusing_def tryConnect.simps)
  have d: "\<forall>k. snd (refusing 10808 ''127.0.0.1'' k) \<le> 0"
    by (simp add: refusing_def)
  from waitForProxy_bounded_retry [of thirdTime 10808 "''127.0.0.1''" 10000 0 30]
    waitForProxy_bounded_retry [of refusing 10808 "''127.0.0.1''" 10000 0 0] a b c d
  show ?thesis by simp
qed

end
